theory Spec2Isabelle
  imports Main "HOL-Library.Word"
begin

section \<open>Data of the bridge listener\<close>

text \<open>
  The listener of \<^verbatim>\<open>src/script.py\<close> polls a source chain for \<^verbatim>\<open>TokensLocked\<close> logs,
  asks an oracle over HTTP whether each log is valid and, if so, simulates the mint on
  the destination chain. The chain node, the oracle and the clock are outside the
  program: their answers are inputs of the model, and what the program sends to them is
  recorded in traces kept beside the program's own state.
\<close>

subsection \<open>Event logs\<close>

type_synonym byte = "8 word"

text \<open>
  A decoded log, as far as the listener reads it: \<^verbatim>\<open>event['transactionHash']\<close> (bytes),
  \<^verbatim>\<open>event['args']['recipient']\<close> (ABI type \<^verbatim>\<open>bytes\<close>) and
  \<^verbatim>\<open>event['args']['amount']\<close> (ABI type \<^verbatim>\<open>uint256\<close>).
\<close>

record event =
  transactionHash :: "byte list"
  recipient :: "byte list"
  amount :: "256 word"

text \<open>
  \<^verbatim>\<open>bytes.hex()\<close>: two lower-case hexadecimal digits per byte. \<open>hex_digit\<close> is only
  applied to the two halves of a byte, which are below 16.
\<close>

definition hex_digit :: "nat \<Rightarrow> char" where
  "hex_digit n = ''0123456789abcdef'' ! n"

fun bytes_hex :: "byte list \<Rightarrow> string" where
  "bytes_hex [] = []"
| "bytes_hex (b # bs) =
     hex_digit (unat b div 16) # hex_digit (unat b mod 16) # bytes_hex bs"

text \<open>
  \<^verbatim>\<open>HexBytes.hex()\<close>, the method of the transaction hash. The source uses the
  interface of \<^verbatim>\<open>web3\<close> 6 (\<^verbatim>\<open>get_logs(fromBlock=..., toBlock=...)\<close>), whose
  \<^verbatim>\<open>hexbytes\<close> puts \<^verbatim>\<open>0x\<close> in front of the digits. (From \<^verbatim>\<open>hexbytes\<close> 1.0 on the
  prefix is gone; nothing below depends on it but the strings of the concrete runs.)
\<close>

definition hex :: "byte list \<Rightarrow> string" where
  "hex bs = ''0x'' @ bytes_hex bs"

subsection \<open>JSON values and HTTP replies\<close>

text \<open>
  A Python \<^verbatim>\<open>float\<close>, as the JSON decoder builds it from a number with a fraction or
  an exponent (and from the literals \<^verbatim>\<open>NaN\<close>, \<^verbatim>\<open>Infinity\<close> and \<^verbatim>\<open>-Infinity\<close>, which
  it accepts): \<open>Finite m e\<close> is the double \<open>m * 2 ^ e\<close>, both zeros being \<open>Finite 0 e\<close>.
\<close>

datatype pyfloat = Finite int int | PosInfinity | NegInfinity | NaN

text \<open>
  The values of JSON documents, as \<^verbatim>\<open>response.json()\<close> builds them. An object is
  the list of its members in the order of the document; where a key occurs twice the
  later member is the one the \<^verbatim>\<open>dict\<close> keeps.
\<close>

datatype json =
    JNull
  | JBool bool
  | JInt int
  | JFloat pyfloat
  | JStr string
  | JList "json list"
  | JObj "(string \<times> json) list"

text \<open>Python's truth value of a parsed JSON value, as \<^verbatim>\<open>and\<close> and \<^verbatim>\<open>if\<close> test it.\<close>

fun truthy :: "json \<Rightarrow> bool" where
  "truthy JNull = False"
| "truthy (JBool b) = b"
| "truthy (JInt i) = (i \<noteq> 0)"
| "truthy (JFloat x) = (case x of Finite m e \<Rightarrow> m \<noteq> 0 | _ \<Rightarrow> True)"
| "truthy (JStr s) = (s \<noteq> [])"
| "truthy (JList xs) = (xs \<noteq> [])"
| "truthy (JObj kvs) = (kvs \<noteq> [])"

datatype py_exception =
    AttributeError
  | ValueError
  | RecursionError
  | StaleBlockchain
  | BadFunctionCallOutput
  | ContractLogicError
  | OtherException

text \<open>
  The subclasses of \<^verbatim>\<open>requests.exceptions.RequestException\<close>, the only exceptions
  the handler of the validation catches; \<^verbatim>\<open>response.json()\<close> raises
  \<open>JSONDecodeError\<close> on a body that is not JSON (\<^verbatim>\<open>requests\<close> 2.27 and later).
\<close>

datatype request_exception =
  ConnectionError | Timeout | JSONDecodeError | OtherRequestException

text \<open>
  The body of a response, by what \<^verbatim>\<open>response.json()\<close> does with it:
  \<open>Malformed\<close> is not JSON, and the call raises the \<open>JSONDecodeError\<close> of
  \<^verbatim>\<open>requests\<close>; on \<open>Raising e\<close> the decoder raises \<open>e\<close>, which is not a
  \<^verbatim>\<open>RequestException\<close> and which \<^verbatim>\<open>requests\<close> lets through (a
  \<^verbatim>\<open>RecursionError\<close> on a document nested beyond the interpreter's recursion limit);
  \<open>Parsed j\<close> is a JSON document of value \<open>j\<close>.
\<close>

datatype body = Malformed | Raising py_exception | Parsed json

text \<open>
  CPython converts no string of more than 4300 digits to an \<^verbatim>\<open>int\<close>
  (\<^verbatim>\<open>sys.int_info.default_max_str_digits\<close>): a document that holds a longer integer
  makes the decoder raise \<^verbatim>\<open>ValueError\<close>.
\<close>

definition int_max_str_digits :: nat where
  "int_max_str_digits = 4300"

fun within_int_limit :: "json \<Rightarrow> bool" where
  "within_int_limit (JInt i) = (\<bar>i\<bar> < 10 ^ int_max_str_digits)"
| "within_int_limit (JList xs) = list_all within_int_limit xs"
| "within_int_limit (JObj kvs) = list_all within_int_limit (map snd kvs)"
| "within_int_limit j = True"

text \<open>\<^verbatim>\<open>response.json()\<close>: the value of the document, or the exception raised.\<close>

datatype json_exception = Caught request_exception | Uncaught py_exception

definition response_json :: "body \<Rightarrow> json_exception + json" where
  "response_json b =
     (case b of
        Malformed \<Rightarrow> Inl (Caught JSONDecodeError)
      | Raising e \<Rightarrow> Inl (Uncaught e)
      | Parsed j \<Rightarrow> if within_int_limit j then Inr j else Inl (Uncaught ValueError))"

text \<open>The outcome of \<^verbatim>\<open>requests.post\<close>: a response with its status code and body, or an exception.\<close>

datatype http_outcome = Response int body | Raises request_exception

text \<open>The arguments of one \<^verbatim>\<open>requests.post(url, json=payload, headers=headers, timeout=10)\<close>.\<close>

record post_request =
  post_url :: string
  post_json :: "(string \<times> json) list"
  post_headers :: "(string \<times> string) list"
  post_timeout :: nat

subsection \<open>Configuration\<close>

record oracle_api_config =
  url :: "string option"
  api_key :: "string option"

record config =
  source_chain_name :: string
  event_name :: string
  destination_chain_name :: string
  token_mint_contract_address :: string
  oracle_api :: "oracle_api_config option"

text \<open>\<^verbatim>\<open>self.config.get("oracle_api", {}).get("url")\<close> and \<^verbatim>\<open>.get("api_key", "")\<close>.\<close>

definition oracle_api_url :: "config \<Rightarrow> string option" where
  "oracle_api_url cfg = (case oracle_api cfg of None \<Rightarrow> None | Some a \<Rightarrow> url a)"

definition oracle_api_key :: "config \<Rightarrow> string" where
  "oracle_api_key cfg =
     (case oracle_api cfg of
        None \<Rightarrow> []
      | Some a \<Rightarrow> (case api_key a of None \<Rightarrow> [] | Some k \<Rightarrow> k))"

subsection \<open>Log lines\<close>

datatype level = DEBUG | INFO | WARNING | ERROR | CRITICAL

text \<open>One constructor for each message of the source, with the values it interpolates.\<close>

datatype message =
    OracleUrlNotConfigured
  | ValidatingTransaction string
  | OracleValidationSuccessful string
  | OracleValidationFailed string int
  | CouldNotReachOracle request_exception
  | Separator
  | InitiatingMinting string
  | SourceTxHash string
  | RecipientOn string string
  | AmountToMint "256 word"
  | ActionCallMint string
  | SkippingProcessed string
  | NewEventFound string string
  | ValidationFailedNoAction string
  | ContractNotInitialized
  | StartingListener string
  | CouldNotFetchInitialBlock
  | CouldNotDetermineLatestBlock
  | NoNewBlocks int
  | ScanningBlocks int int
  | Web3RelatedError py_exception
  | UnexpectedError py_exception

subsection \<open>The listener's state\<close>

text \<open>
  \<open>processed_txs\<close> is the field of \<^verbatim>\<open>BridgeEventListener\<close>. The other fields are the
  traces of what the program did to the outside: the lines it logged, the requests it
  posted to the oracle, the events for which it entered
  \<^verbatim>\<open>_initiate_destination_chain_action\<close>, and the block ranges it passed to
  \<^verbatim>\<open>get_logs\<close>.
\<close>

record listener =
  processed_txs :: "string set"
  logged :: "(level \<times> message) list"
  posts :: "post_request list"
  mints :: "event list"
  fetches :: "(int \<times> int) list"

definition initial_listener :: listener where
  "initial_listener =
     \<lparr>processed_txs = {}, logged = [], posts = [], mints = [], fetches = []\<rparr>"

definition logging :: "level \<Rightarrow> message \<Rightarrow> listener \<Rightarrow> listener" where
  "logging lv m s = s\<lparr>logged := logged s @ [(lv, m)]\<rparr>"

section \<open>Validation, action and event processing\<close>

text \<open>
  \<^verbatim>\<open>response.json().get("isValid", False)\<close>: the field of a parsed object, \<^verbatim>\<open>False\<close>
  when it is absent; on any other JSON value \<^verbatim>\<open>.get\<close> does not exist and the
  attribute access raises.
\<close>

fun get_isValid :: "json \<Rightarrow> py_exception + json" where
  "get_isValid (JObj d) =
     Inr (case map_of (rev d) ''isValid'' of None \<Rightarrow> JBool False | Some v \<Rightarrow> v)"
| "get_isValid j = Inl AttributeError"

text \<open>
  \<^verbatim>\<open>_validate_with_oracle\<close>, in two parts: \<open>validate_with_oracle\<close> is the test of
  the URL, \<open>post_to_oracle\<close> the rest of the body. \<open>reply\<close> is the outcome of the one
  \<^verbatim>\<open>requests.post\<close>, used only on the path that posts. The result is the returned
  \<^verbatim>\<open>bool\<close>, or the exception that leaves the function: the handler catches
  \<^verbatim>\<open>RequestException\<close> only, and \<^verbatim>\<open>response.json()\<close> is evaluated only when the
  status is 200.
\<close>

definition post_to_oracle ::
  "config \<Rightarrow> string \<Rightarrow> event \<Rightarrow> http_outcome \<Rightarrow> listener \<Rightarrow> (py_exception + bool) \<times> listener" where
  "post_to_oracle cfg u event_data reply s =
     (let headers = [(''x-api-key'', oracle_api_key cfg)];
          tx_hash = hex (transactionHash event_data);
          payload = [(''transactionHash'', JStr tx_hash),
                     (''sourceChain'', JStr (source_chain_name cfg)),
                     (''amount'', JInt (uint (amount event_data)))];
          s1 = logging INFO (ValidatingTransaction tx_hash) s;
          s2 = s1\<lparr>posts := posts s1 @
                 [\<lparr>post_url = u, post_json = payload, post_headers = headers,
                   post_timeout = 10\<rparr>]\<rparr>
      in case reply of
           Raises e \<Rightarrow> (Inr False, logging ERROR (CouldNotReachOracle e) s2)
         | Response status_code b \<Rightarrow>
             if status_code = 200 then
               (case response_json b of
                  Inl (Caught e) \<Rightarrow> (Inr False, logging ERROR (CouldNotReachOracle e) s2)
                | Inl (Uncaught e) \<Rightarrow> (Inl e, s2)
                | Inr j \<Rightarrow>
                    (case get_isValid j of
                       Inl e \<Rightarrow> (Inl e, s2)
                     | Inr v \<Rightarrow>
                         if truthy v
                         then (Inr True, logging INFO (OracleValidationSuccessful tx_hash) s2)
                         else (Inr False,
                               logging WARNING (OracleValidationFailed tx_hash status_code) s2)))
             else (Inr False, logging WARNING (OracleValidationFailed tx_hash status_code) s2))"

definition validate_with_oracle ::
  "config \<Rightarrow> event \<Rightarrow> http_outcome \<Rightarrow> listener \<Rightarrow> (py_exception + bool) \<times> listener" where
  "validate_with_oracle cfg event_data reply s =
     (case oracle_api_url cfg of
        None \<Rightarrow> (Inr True, logging WARNING OracleUrlNotConfigured s)
      | Some u \<Rightarrow>
          if u = [] then (Inr True, logging WARNING OracleUrlNotConfigured s)
          else post_to_oracle cfg u event_data reply s)"

text \<open>
  \<^verbatim>\<open>_initiate_destination_chain_action\<close>: seven log lines, then the hash joins
  \<open>processed_txs\<close>. The recipient is decoded as plain \<^verbatim>\<open>bytes\<close>, so its line shows
  \<^verbatim>\<open>bytes.hex()\<close>. The amount is a \<^verbatim>\<open>uint256\<close>, so the division by \<^verbatim>\<open>10**18\<close> that
  formats its log line cannot overflow a float; the function has no failing path.
\<close>

definition initiate_destination_chain_action :: "config \<Rightarrow> event \<Rightarrow> listener \<Rightarrow> listener" where
  "initiate_destination_chain_action cfg event_data s =
     (let tx_hash = hex (transactionHash event_data);
          dest_chain_name = destination_chain_name cfg;
          s1 = s\<lparr>mints := mints s @ [event_data]\<rparr>;
          s2 = s1\<lparr>logged := logged s1 @
                 [(INFO, Separator),
                  (INFO, InitiatingMinting dest_chain_name),
                  (INFO, SourceTxHash tx_hash),
                  (INFO, RecipientOn dest_chain_name (bytes_hex (recipient event_data))),
                  (INFO, AmountToMint (amount event_data)),
                  (INFO, ActionCallMint (token_mint_contract_address cfg)),
                  (INFO, Separator)]\<rparr>
      in s2\<lparr>processed_txs := insert tx_hash (processed_txs s2)\<rparr>)"

text \<open>
  \<^verbatim>\<open>_process_event\<close>. It has no handler of its own: an exception of the validation
  leaves it, with the state as it was when the exception was raised.
\<close>

definition process_event ::
  "config \<Rightarrow> event \<Rightarrow> http_outcome \<Rightarrow> listener \<Rightarrow> py_exception option \<times> listener" where
  "process_event cfg ev reply s =
     (let tx_hash = hex (transactionHash ev)
      in if tx_hash \<in> processed_txs s
         then (None, logging DEBUG (SkippingProcessed tx_hash) s)
         else
           (case validate_with_oracle cfg ev reply
                   (logging INFO (NewEventFound (event_name cfg) tx_hash) s) of
              (Inl e, s') \<Rightarrow> (Some e, s')
            | (Inr ok, s') \<Rightarrow>
                if ok then (None, initiate_destination_chain_action cfg ev s')
                else (None, logging WARNING (ValidationFailedNoAction tx_hash) s')))"

text \<open>
  The \<^verbatim>\<open>for event in event_filter\<close> loop of \<^verbatim>\<open>listen\<close>. Each fetched log comes with
  the reply the oracle gives if it is asked about that log at that moment. The loop stops
  at the first exception.
\<close>

fun process_events ::
  "config \<Rightarrow> (event \<times> http_outcome) list \<Rightarrow> listener \<Rightarrow> py_exception option \<times> listener" where
  "process_events cfg [] s = (None, s)"
| "process_events cfg ((ev, reply) # rest) s =
     (case process_event cfg ev reply s of
        (Some e, s') \<Rightarrow> (Some e, s')
      | (None, s') \<Rightarrow> process_events cfg rest s')"

section \<open>The scan loop\<close>

text \<open>
  What the outside answers during one pass of the \<^verbatim>\<open>while True\<close> loop:
  \<open>latest\<close> is the result of \<^verbatim>\<open>get_latest_block_number()\<close> (\<^verbatim>\<open>None\<close> on any RPC
  failure), \<open>fetched\<close> the result of \<^verbatim>\<open>get_logs\<close> for the range the pass asks for:
  an exception, or the logs, each with the oracle's reply.
\<close>

record cycle_input =
  latest :: "int option"
  fetched :: "py_exception + (event \<times> http_outcome) list"

text \<open>The two \<^verbatim>\<open>except\<close> clauses at the end of the loop body.\<close>

definition handle_exception :: "py_exception \<Rightarrow> listener \<Rightarrow> listener" where
  "handle_exception e s =
     (if e = StaleBlockchain \<or> e = BadFunctionCallOutput \<or> e = ContractLogicError
      then logging WARNING (Web3RelatedError e) s
      else logging ERROR (UnexpectedError e) s)"

text \<open>
  One pass of the loop body, on the local \<open>last_scanned_block\<close> and the listener.
  The sleeps are not modelled.
\<close>

definition listen_cycle ::
  "config \<Rightarrow> int \<Rightarrow> cycle_input \<Rightarrow> int \<times> listener \<Rightarrow> int \<times> listener" where
  "listen_cycle cfg block_range inp st =
     (case st of (last_scanned_block, s) \<Rightarrow>
        (case latest inp of
           None \<Rightarrow> (last_scanned_block, logging WARNING CouldNotDetermineLatestBlock s)
         | Some latest_block \<Rightarrow>
             (let from_block = last_scanned_block + 1;
                  to_block = min latest_block (from_block + block_range)
              in if from_block > latest_block
                 then (last_scanned_block, logging INFO (NoNewBlocks latest_block) s)
                 else
                   (let s1 = logging INFO (ScanningBlocks from_block to_block) s;
                        s2 = s1\<lparr>fetches := fetches s1 @ [(from_block, to_block)]\<rparr>
                    in case fetched inp of
                         Inl e \<Rightarrow> (last_scanned_block, handle_exception e s2)
                       | Inr evs \<Rightarrow>
                           (case process_events cfg evs s2 of
                              (Some e, s3) \<Rightarrow> (last_scanned_block, handle_exception e s3)
                            | (None, s3) \<Rightarrow> (to_block, s3))))))"

text \<open>The loop never ends by itself; its first passes, one for each input of the list.\<close>

fun listen_cycles ::
  "config \<Rightarrow> int \<Rightarrow> cycle_input list \<Rightarrow> int \<times> listener \<Rightarrow> int \<times> listener" where
  "listen_cycles cfg block_range [] st = st"
| "listen_cycles cfg block_range (inp # inps) st =
     listen_cycles cfg block_range inps (listen_cycle cfg block_range inp st)"

text \<open>
  The start of \<^verbatim>\<open>listen\<close>, before the loop: \<open>contract_ready\<close> says whether
  \<open>bridge_contract\<close> was set up, \<open>h0\<close> is the first \<^verbatim>\<open>get_latest_block_number()\<close>.
  \<^verbatim>\<open>None - 1\<close> raises and the method returns; otherwise the result is the first
  \<open>last_scanned_block\<close>.
\<close>

definition listen_start :: "config \<Rightarrow> bool \<Rightarrow> int option \<Rightarrow> listener \<Rightarrow> int option \<times> listener" where
  "listen_start cfg contract_ready h0 s =
     (if \<not> contract_ready then (None, logging CRITICAL ContractNotInitialized s)
      else
        (let s1 = logging INFO (StartingListener (event_name cfg)) s
         in case h0 of
              None \<Rightarrow> (None, logging CRITICAL CouldNotFetchInitialBlock s1)
            | Some h \<Rightarrow> (Some (h - 1), s1)))"

definition listen ::
  "config \<Rightarrow> int \<Rightarrow> bool \<Rightarrow> int option \<Rightarrow> cycle_input list \<Rightarrow> listener \<Rightarrow> int option \<times> listener" where
  "listen cfg block_range contract_ready h0 inps s =
     (case listen_start cfg contract_ready h0 s of
        (None, s') \<Rightarrow> (None, s')
      | (Some c, s') \<Rightarrow>
          (case listen_cycles cfg block_range inps (c, s') of (c', s'') \<Rightarrow> (Some c', s'')))"

section \<open>Concrete inputs\<close>

text \<open>The \<^verbatim>\<open>CONFIG\<close> of the source, with the defaults of its environment variables.\<close>

definition CONFIG :: config where
  "CONFIG =
     \<lparr>source_chain_name = ''Ethereum'', event_name = ''TokensLocked'',
      destination_chain_name = ''Polygon'',
      token_mint_contract_address = ''0x0987654321098765432109876543210987654321'',
      oracle_api = Some \<lparr>url = Some ''https://api.mock-oracle.io/validate-tx'',
                         api_key = Some ''your_default_api_key''\<rparr>\<rparr>"

text \<open>Two logs of different transactions: 32-byte hashes, 20-byte recipients.\<close>

definition lock_a :: event where
  "lock_a =
     \<lparr>transactionHash =
        [0xab, 0xcd, 0x01, 0xff, 0x10, 0x32, 0x54, 0x76, 0x98, 0xba, 0xdc, 0xfe, 0x00, 0x11,
         0x22, 0x33, 0x44, 0x55, 0x66, 0x77, 0x88, 0x99, 0xaa, 0xbb, 0xcc, 0xdd, 0xee, 0xf0,
         0x0f, 0x1e, 0x2d, 0x3c],
      recipient =
        [0x5a, 0xae, 0xb6, 0x05, 0x3f, 0x3e, 0x94, 0xc9, 0xb9, 0xa0, 0x9f, 0x33, 0x66, 0x94,
         0x35, 0xe7, 0xef, 0x1b, 0xea, 0xed],
      amount = 1500000000000000000\<rparr>"

definition lock_b :: event where
  "lock_b =
     \<lparr>transactionHash =
        [0x7c, 0x2d, 0x01, 0xff, 0x10, 0x32, 0x54, 0x76, 0x98, 0xba, 0xdc, 0xfe, 0x00, 0x11,
         0x22, 0x33, 0x44, 0x55, 0x66, 0x77, 0x88, 0x99, 0xaa, 0xbb, 0xcc, 0xdd, 0xee, 0xf0,
         0x0f, 0x1e, 0x2d, 0x3c],
      recipient =
        [0x5a, 0xae, 0xb6, 0x05, 0x3f, 0x3e, 0x94, 0xc9, 0xb9, 0xa0, 0x9f, 0x33, 0x66, 0x94,
         0x35, 0xe7, 0xef, 0x1b, 0xea, 0xed],
      amount = 250000000000000000\<rparr>"

section \<open>The invariant of the processed set\<close>

text \<open>
  The hashes in \<open>processed_txs\<close> are those of the events for which the destination
  action was initiated, and no hash was initiated twice.
\<close>

definition minted_once :: "listener \<Rightarrow> bool" where
  "minted_once s =
     (processed_txs s = set (map (\<lambda>e. hex (transactionHash e)) (mints s)) \<and>
      distinct (map (\<lambda>e. hex (transactionHash e)) (mints s)))"

section \<open>What each function changes\<close>

lemma logging_fields [simp]:
  "processed_txs (logging lv m s) = processed_txs s"
  "mints (logging lv m s) = mints s"
  "posts (logging lv m s) = posts s"
  "fetches (logging lv m s) = fetches s"
  "logged (logging lv m s) = logged s @ [(lv, m)]"
  by (simp_all add: logging_def)

lemma post_to_oracle_fields:
  "processed_txs (snd (post_to_oracle cfg u ev reply s)) = processed_txs s"
  "mints (snd (post_to_oracle cfg u ev reply s)) = mints s"
  "fetches (snd (post_to_oracle cfg u ev reply s)) = fetches s"
  by (simp_all add: post_to_oracle_def Let_def
        split: http_outcome.split sum.split json_exception.split)

lemma post_to_oracle_posts:
  "posts (snd (post_to_oracle cfg u ev reply s)) =
     posts s @
       [\<lparr>post_url = u,
         post_json = [(''transactionHash'', JStr (hex (transactionHash ev))),
                      (''sourceChain'', JStr (source_chain_name cfg)),
                      (''amount'', JInt (uint (amount ev)))],
         post_headers = [(''x-api-key'', oracle_api_key cfg)],
         post_timeout = 10\<rparr>]"
  by (simp add: post_to_oracle_def Let_def
        split: http_outcome.split sum.split json_exception.split)

text \<open>The value \<^verbatim>\<open>_validate_with_oracle\<close> returns on the posting path depends on the reply only.\<close>

lemma post_to_oracle_verdict:
  "fst (post_to_oracle cfg u ev reply s) =
     (case reply of
        Raises e \<Rightarrow> Inr False
      | Response status_code b \<Rightarrow>
          if status_code = 200 then
            (case response_json b of
               Inl (Caught e) \<Rightarrow> Inr False
             | Inl (Uncaught e) \<Rightarrow> Inl e
             | Inr j \<Rightarrow> (case get_isValid j of Inl e \<Rightarrow> Inl e | Inr v \<Rightarrow> Inr (truthy v)))
          else Inr False)"
  by (simp add: post_to_oracle_def Let_def
        split: http_outcome.split sum.split json_exception.split)

lemma validate_fields:
  "processed_txs (snd (validate_with_oracle cfg ev reply s)) = processed_txs s"
  "mints (snd (validate_with_oracle cfg ev reply s)) = mints s"
  "fetches (snd (validate_with_oracle cfg ev reply s)) = fetches s"
  by (simp_all add: validate_with_oracle_def post_to_oracle_fields split: option.split)

lemma validate_verdict_state:
  "fst (validate_with_oracle cfg ev reply s) = fst (validate_with_oracle cfg ev reply s')"
  by (simp add: validate_with_oracle_def post_to_oracle_verdict split: option.split)

lemma initiate_fields:
  "processed_txs (initiate_destination_chain_action cfg ev s) =
     insert (hex (transactionHash ev)) (processed_txs s)"
  "mints (initiate_destination_chain_action cfg ev s) = mints s @ [ev]"
  "posts (initiate_destination_chain_action cfg ev s) = posts s"
  "fetches (initiate_destination_chain_action cfg ev s) = fetches s"
  by (simp_all add: initiate_destination_chain_action_def Let_def)

lemma process_event_skip:
  "hex (transactionHash ev) \<in> processed_txs s \<Longrightarrow>
   process_event cfg ev reply s =
     (None, logging DEBUG (SkippingProcessed (hex (transactionHash ev))) s)"
  by (simp add: process_event_def)

lemma process_event_fresh:
  "hex (transactionHash ev) \<notin> processed_txs s \<Longrightarrow>
   process_event cfg ev reply s =
     (case validate_with_oracle cfg ev reply
             (logging INFO (NewEventFound (event_name cfg) (hex (transactionHash ev))) s) of
        (Inl e, s') \<Rightarrow> (Some e, s')
      | (Inr ok, s') \<Rightarrow>
          if ok then (None, initiate_destination_chain_action cfg ev s')
          else (None, logging WARNING (ValidationFailedNoAction (hex (transactionHash ev))) s'))"
  by (simp add: process_event_def Let_def)

lemma process_event_rejected:
  assumes "fst (validate_with_oracle cfg ev reply s0) \<noteq> Inr True"
  shows "mints (snd (process_event cfg ev reply s)) = mints s"
    and "processed_txs (snd (process_event cfg ev reply s)) = processed_txs s"
proof -
  let ?s1 = "logging INFO (NewEventFound (event_name cfg) (hex (transactionHash ev))) s"
  have v: "fst (validate_with_oracle cfg ev reply ?s1) \<noteq> Inr True"
    using assms validate_verdict_state [of cfg ev reply ?s1 s0] by simp
  obtain r s' where rs: "validate_with_oracle cfg ev reply ?s1 = (r, s')"
    by (cases "validate_with_oracle cfg ev reply ?s1")
  have f: "mints s' = mints s" "processed_txs s' = processed_txs s"
    using validate_fields [of cfg ev reply ?s1] rs by simp_all
  show "mints (snd (process_event cfg ev reply s)) = mints s"
    using v rs f by (cases "hex (transactionHash ev) \<in> processed_txs s")
      (auto simp: process_event_skip process_event_fresh split: sum.split)
  show "processed_txs (snd (process_event cfg ev reply s)) = processed_txs s"
    using v rs f by (cases "hex (transactionHash ev) \<in> processed_txs s")
      (auto simp: process_event_skip process_event_fresh split: sum.split)
qed

lemma process_event_accepted:
  assumes fresh: "hex (transactionHash ev) \<notin> processed_txs s"
      and ok: "fst (validate_with_oracle cfg ev reply s0) = Inr True"
  shows "process_event cfg ev reply s =
           (None, initiate_destination_chain_action cfg ev
              (snd (validate_with_oracle cfg ev reply
                 (logging INFO (NewEventFound (event_name cfg) (hex (transactionHash ev))) s))))"
proof -
  let ?s1 = "logging INFO (NewEventFound (event_name cfg) (hex (transactionHash ev))) s"
  have "fst (validate_with_oracle cfg ev reply ?s1) = Inr True"
    using ok validate_verdict_state [of cfg ev reply ?s1 s0] by simp
  then show ?thesis
    using fresh by (cases "validate_with_oracle cfg ev reply ?s1") (simp add: process_event_fresh)
qed

lemma process_event_processed_cases:
  "processed_txs (snd (process_event cfg ev reply s)) = processed_txs s \<or>
   processed_txs (snd (process_event cfg ev reply s)) =
     insert (hex (transactionHash ev)) (processed_txs s)"
proof (cases "fst (validate_with_oracle cfg ev reply s) = Inr True")
  case False
  then show ?thesis by (simp add: process_event_rejected)
next
  case True
  show ?thesis
  proof (cases "hex (transactionHash ev) \<in> processed_txs s")
    case True
    then show ?thesis by (simp add: process_event_skip)
  next
    case False
    then show ?thesis
      using True by (simp add: process_event_accepted initiate_fields validate_fields)
  qed
qed

lemma process_event_processed_mono:
  "processed_txs s \<subseteq> processed_txs (snd (process_event cfg ev reply s))"
  using process_event_processed_cases [of cfg ev reply s] by auto

lemma process_events_processed_mono:
  "processed_txs s \<subseteq> processed_txs (snd (process_events cfg evs s))"
proof (induction evs arbitrary: s)
  case Nil
  show ?case by simp
next
  case (Cons p evs)
  obtain ev reply where p: "p = (ev, reply)" by (cases p)
  obtain x s' where r: "process_event cfg ev reply s = (x, s')"
    by (cases "process_event cfg ev reply s")
  have m: "processed_txs s \<subseteq> processed_txs s'"
    using process_event_processed_mono [of s cfg ev reply] r by simp
  show ?case
  proof (cases x)
    case None
    then show ?thesis using p r m Cons.IH [of s'] by auto
  next
    case (Some e)
    then show ?thesis using p r m by simp
  qed
qed

lemma process_event_mints_cases:
  "(mints (snd (process_event cfg ev reply s)) = mints s \<and>
    processed_txs (snd (process_event cfg ev reply s)) = processed_txs s) \<or>
   (hex (transactionHash ev) \<notin> processed_txs s \<and>
    mints (snd (process_event cfg ev reply s)) = mints s @ [ev] \<and>
    processed_txs (snd (process_event cfg ev reply s)) =
      insert (hex (transactionHash ev)) (processed_txs s))"
proof (cases "fst (validate_with_oracle cfg ev reply s) = Inr True")
  case False
  then show ?thesis by (simp add: process_event_rejected)
next
  case True
  show ?thesis
  proof (cases "hex (transactionHash ev) \<in> processed_txs s")
    case True
    then show ?thesis by (simp add: process_event_skip)
  next
    case False
    then show ?thesis
      using True by (simp add: process_event_accepted initiate_fields validate_fields)
  qed
qed

lemma validate_not_configured:
  "oracle_api_url cfg = None \<or> oracle_api_url cfg = Some [] \<Longrightarrow>
   validate_with_oracle cfg ev reply s = (Inr True, logging WARNING OracleUrlNotConfigured s)"
  by (auto simp: validate_with_oracle_def)

lemma hex_digit_in: "n < 16 \<Longrightarrow> hex_digit n \<in> set ''0123456789abcdef''"
  unfolding hex_digit_def by (rule nth_mem) simp

lemma byte_halves: "unat (b :: byte) div 16 < 16" "unat b mod 16 < 16"
proof -
  have "unat b < 2 ^ LENGTH(8)" by (rule unsigned_less)
  then have "unat b < 256" by simp
  then show "unat b div 16 < 16" by simp
  show "unat b mod 16 < 16" by simp
qed

lemma bytes_hex_digits: "set (bytes_hex bs) \<subseteq> set ''0123456789abcdef''"
proof (induction bs)
  case Nil
  show ?case by simp
next
  case (Cons b bs)
  have "hex_digit (unat b div 16) \<in> set ''0123456789abcdef''"
       "hex_digit (unat b mod 16) \<in> set ''0123456789abcdef''"
    by (rule hex_digit_in, rule byte_halves)+
  then show ?case using Cons.IH by simp
qed

lemma accepted_iff:
  "(fst (post_to_oracle cfg u ev reply s) = Inr True) =
   (\<exists>d. reply = Response 200 (Parsed (JObj d)) \<and> within_int_limit (JObj d) \<and>
        truthy (case map_of (rev d) ''isValid'' of None \<Rightarrow> JBool False | Some v \<Rightarrow> v))"
proof (cases reply)
  case (Raises e)
  then show ?thesis by (simp add: post_to_oracle_verdict)
next
  case (Response st b)
  show ?thesis
  proof (cases b)
    case Malformed
    then show ?thesis using Response by (simp add: post_to_oracle_verdict response_json_def)
  next
    case (Raising e)
    then show ?thesis using Response by (simp add: post_to_oracle_verdict response_json_def)
  next
    case (Parsed j)
    show ?thesis
    proof (cases "within_int_limit j")
      case False
      then show ?thesis using Response Parsed
        by (auto simp: post_to_oracle_verdict response_json_def)
    next
      case True
      then show ?thesis using Response Parsed
        by (cases j) (auto simp: post_to_oracle_verdict response_json_def)
    qed
  qed
qed

lemma handle_exception_fields [simp]:
  "processed_txs (handle_exception e s) = processed_txs s"
  "mints (handle_exception e s) = mints s"
  "posts (handle_exception e s) = posts s"
  "fetches (handle_exception e s) = fetches s"
  by (simp_all add: handle_exception_def)

lemma process_event_outcome_state:
  assumes eq: "processed_txs s = processed_txs s'"
  shows "fst (process_event cfg ev reply s) = fst (process_event cfg ev reply s') \<and>
         processed_txs (snd (process_event cfg ev reply s)) =
           processed_txs (snd (process_event cfg ev reply s'))"
proof (cases "hex (transactionHash ev) \<in> processed_txs s")
  case True
  then show ?thesis using eq by (simp add: process_event_skip)
next
  case False
  let ?m = "NewEventFound (event_name cfg) (hex (transactionHash ev))"
  obtain r t where a: "validate_with_oracle cfg ev reply (logging INFO ?m s) = (r, t)"
    by (cases "validate_with_oracle cfg ev reply (logging INFO ?m s)")
  obtain r' t' where b: "validate_with_oracle cfg ev reply (logging INFO ?m s') = (r', t')"
    by (cases "validate_with_oracle cfg ev reply (logging INFO ?m s')")
  have r: "r' = r"
    using validate_verdict_state [of cfg ev reply "logging INFO ?m s" "logging INFO ?m s'"] a b
    by simp
  have p: "processed_txs t = processed_txs s" "processed_txs t' = processed_txs s'"
    using validate_fields(1) [of cfg ev reply "logging INFO ?m s"]
      validate_fields(1) [of cfg ev reply "logging INFO ?m s'"] a b by simp_all
  show ?thesis
    using False eq a b r p
    by (cases r) (simp_all add: process_event_fresh initiate_fields)
qed

lemma process_events_outcome_state:
  "processed_txs s = processed_txs s' \<Longrightarrow>
   fst (process_events cfg evs s) = fst (process_events cfg evs s')"
proof (induction evs arbitrary: s s')
  case Nil
  show ?case by simp
next
  case (Cons p evs)
  obtain ev reply where p: "p = (ev, reply)" by (cases p)
  obtain x t where a: "process_event cfg ev reply s = (x, t)"
    by (cases "process_event cfg ev reply s")
  obtain x' t' where b: "process_event cfg ev reply s' = (x', t')"
    by (cases "process_event cfg ev reply s'")
  have e: "x' = x" "processed_txs t = processed_txs t'"
    using process_event_outcome_state [OF Cons.prems, of cfg ev reply] a b by simp_all
  show ?case
  proof (cases x)
    case None
    then show ?thesis using p a b e Cons.IH [of t t'] by simp
  next
    case (Some ex)
    then show ?thesis using p a b e by simp
  qed
qed

lemma listen_cycle_no_height:
  "latest inp = None \<Longrightarrow>
   listen_cycle cfg block_range inp (c, s) =
     (c, logging WARNING CouldNotDetermineLatestBlock s)"
  by (simp add: listen_cycle_def)

lemma listen_cycle_no_new_blocks:
  "latest inp = Some h \<Longrightarrow> h \<le> c \<Longrightarrow>
   listen_cycle cfg block_range inp (c, s) = (c, logging INFO (NoNewBlocks h) s)"
  by (simp add: listen_cycle_def Let_def)

lemma listen_cycle_scan:
  "latest inp = Some h \<Longrightarrow> c < h \<Longrightarrow>
   listen_cycle cfg block_range inp (c, s) =
     (case fetched inp of
        Inl e \<Rightarrow>
          (c, handle_exception e
                ((logging INFO (ScanningBlocks (c + 1) (min h (c + 1 + block_range))) s)
                   \<lparr>fetches := fetches s @ [(c + 1, min h (c + 1 + block_range))]\<rparr>))
      | Inr evs \<Rightarrow>
          (case process_events cfg evs
                  ((logging INFO (ScanningBlocks (c + 1) (min h (c + 1 + block_range))) s)
                     \<lparr>fetches := fetches s @ [(c + 1, min h (c + 1 + block_range))]\<rparr>) of
             (Some e, s3) \<Rightarrow> (c, handle_exception e s3)
           | (None, s3) \<Rightarrow> (min h (c + 1 + block_range), s3)))"
  by (simp add: listen_cycle_def Let_def split: sum.split)

lemma listen_cycle_checkpoint:
  "fst (listen_cycle cfg block_range inp (c, s)) = c \<or>
   (\<exists>h. latest inp = Some h \<and> c < h \<and>
        fst (listen_cycle cfg block_range inp (c, s)) = min h (c + 1 + block_range))"
proof (cases "latest inp")
  case None
  then show ?thesis by (simp add: listen_cycle_no_height)
next
  case (Some h)
  show ?thesis
  proof (cases "h \<le> c")
    case True
    then show ?thesis using Some by (simp add: listen_cycle_no_new_blocks)
  next
    case False
    then have "c < h" by simp
    then show ?thesis using Some
      by (auto simp: listen_cycle_scan split: sum.split prod.split option.split)
  qed
qed

lemma listen_cycle_mono:
  assumes "0 \<le> block_range"
  shows "c \<le> fst (listen_cycle cfg block_range inp (c, s))"
  using listen_cycle_checkpoint [of cfg block_range inp c s] assms by auto

lemma listen_cycles_mono:
  assumes "0 \<le> block_range"
  shows "c \<le> fst (listen_cycles cfg block_range inps (c, s))"
proof (induction inps arbitrary: c s)
  case Nil
  show ?case by simp
next
  case (Cons inp inps)
  obtain c' s' where st: "listen_cycle cfg block_range inp (c, s) = (c', s')"
    by (cases "listen_cycle cfg block_range inp (c, s)")
  have "c \<le> c'"
    using listen_cycle_mono [OF assms, of c cfg inp s] st by simp
  also have "c' \<le> fst (listen_cycles cfg block_range inps (c', s'))"
    by (rule Cons.IH)
  finally show ?case using st by simp
qed

lemma minted_once_fields:
  "processed_txs s' = processed_txs s \<Longrightarrow> mints s' = mints s \<Longrightarrow>
   minted_once s \<Longrightarrow> minted_once s'"
  by (simp add: minted_once_def)

lemma minted_once_process_event:
  assumes "minted_once s"
  shows "minted_once (snd (process_event cfg ev reply s))"
proof -
  let ?s' = "snd (process_event cfg ev reply s)"
  consider (same) "mints ?s' = mints s" "processed_txs ?s' = processed_txs s"
    | (new) "hex (transactionHash ev) \<notin> processed_txs s" "mints ?s' = mints s @ [ev]"
        "processed_txs ?s' = insert (hex (transactionHash ev)) (processed_txs s)"
    using process_event_mints_cases [of cfg ev reply s] by blast
  then show ?thesis
  proof cases
    case same
    then show ?thesis using assms by (simp add: minted_once_def)
  next
    case new
    then show ?thesis using assms by (auto simp: minted_once_def)
  qed
qed

lemma minted_once_process_events:
  "minted_once s \<Longrightarrow> minted_once (snd (process_events cfg evs s))"
proof (induction evs arbitrary: s)
  case Nil
  then show ?case by simp
next
  case (Cons p evs)
  obtain ev reply where p: "p = (ev, reply)" by (cases p)
  obtain x s' where r: "process_event cfg ev reply s = (x, s')"
    by (cases "process_event cfg ev reply s")
  have i: "minted_once s'"
    using minted_once_process_event [OF Cons.prems, of cfg ev reply] r by simp
  show ?case
  proof (cases x)
    case None
    then show ?thesis using p r Cons.IH [OF i] by simp
  next
    case (Some e)
    then show ?thesis using p r i by simp
  qed
qed

lemma minted_once_listen_cycle:
  assumes "minted_once s"
  shows "minted_once (snd (listen_cycle cfg block_range inp (c, s)))"
proof (cases "latest inp")
  case None
  then show ?thesis using assms
    by (simp add: listen_cycle_no_height minted_once_def)
next
  case (Some h)
  show ?thesis
  proof (cases "h \<le> c")
    case True
    then show ?thesis using Some assms
      by (simp add: listen_cycle_no_new_blocks minted_once_def)
  next
    case False
    let ?s2 = "(logging INFO (ScanningBlocks (c + 1) (min h (c + 1 + block_range))) s)
                 \<lparr>fetches := fetches s @ [(c + 1, min h (c + 1 + block_range))]\<rparr>"
    have i2: "minted_once ?s2"
      using assms by (simp add: minted_once_def)
    show ?thesis
    proof (cases "fetched inp")
      case (Inl e)
      then show ?thesis using Some False i2
        by (simp add: listen_cycle_scan minted_once_def)
    next
      case (Inr evs)
      obtain x s3 where r: "process_events cfg evs ?s2 = (x, s3)"
        by (cases "process_events cfg evs ?s2")
      have i3: "minted_once s3"
        using minted_once_process_events [OF i2, of cfg evs] r by simp
      show ?thesis
      proof (cases x)
        case None
        then show ?thesis using Some False Inr r i3 by (simp add: listen_cycle_scan)
      next
        case (Some e)
        then show ?thesis using \<open>latest inp = Some h\<close> False Inr r i3
          by (simp add: listen_cycle_scan minted_once_def)
      qed
    qed
  qed
qed

lemma minted_once_listen_cycles:
  "minted_once s \<Longrightarrow> minted_once (snd (listen_cycles cfg block_range inps (c, s)))"
proof (induction inps arbitrary: c s)
  case Nil
  then show ?case by simp
next
  case (Cons inp inps)
  obtain c' s' where st: "listen_cycle cfg block_range inp (c, s) = (c', s')"
    by (cases "listen_cycle cfg block_range inp (c, s)")
  have "minted_once s'"
    using minted_once_listen_cycle [OF Cons.prems, of cfg block_range inp c] st by simp
  then have "minted_once (snd (listen_cycles cfg block_range inps (c', s')))"
    by (rule Cons.IH)
  then show ?case using st by simp
qed

lemma minted_once_listen:
  assumes "minted_once s"
  shows "minted_once (snd (listen cfg block_range ready h0 inps s))"
proof (cases "ready \<and> h0 \<noteq> None")
  case False
  then show ?thesis using assms
    by (auto simp: listen_def listen_start_def minted_once_def Let_def split: option.split)
next
  case True
  then obtain h where h: "h0 = Some h" by auto
  let ?s1 = "logging INFO (StartingListener (event_name cfg)) s"
  have i: "minted_once ?s1" using assms by (simp add: minted_once_def)
  have "listen cfg block_range ready h0 inps s =
      (case listen_cycles cfg block_range inps (h - 1, ?s1) of (c', s'') \<Rightarrow> (Some c', s''))"
    using True h by (simp add: listen_def listen_start_def Let_def)
  then have "snd (listen cfg block_range ready h0 inps s) =
      snd (listen_cycles cfg block_range inps (h - 1, ?s1))"
    by (simp split: prod.split)
  then show ?thesis using minted_once_listen_cycles [OF i, of cfg block_range inps "h - 1"]
    by simp
qed



text \<open>The definitions to unfold when the program is run on a concrete input.\<close>

lemmas run_defs =
  process_event_def validate_with_oracle_def post_to_oracle_def
  initiate_destination_chain_action_def listen_cycle_def listen_start_def listen_def
  handle_exception_def logging_def oracle_api_url_def oracle_api_key_def response_json_def
  hex_def
  hex_digit_def initial_listener_def CONFIG_def lock_a_def lock_b_def Let_def

section \<open>Fail-closed validation\<close>

text \<open>
  Claim C4, as the spec states it, at a concrete input: the oracle answers 200 with
  \<open>isValid\<close> set to the string \<^verbatim>\<open>"false"\<close>. That is not the \<^verbatim>\<open>isValid: true\<close> of
  an accepted event, so by the spec the validator has rejected it; the code tests the
  truth value of the field, initiates the destination action and marks the hash
  processed.
\<close>

theorem fail_closed_validation_counterexample:
  "mints (snd (process_event CONFIG lock_a
       (Response 200 (Parsed (JObj [(''isValid'', JStr ''false'')]))) initial_listener))
     = [lock_a]
   \<and> processed_txs (snd (process_event CONFIG lock_a
       (Response 200 (Parsed (JObj [(''isValid'', JStr ''false'')]))) initial_listener))
     = {''0xabcd01ff1032547698badcfe00112233445566778899aabbccddeef00f1e2d3c''}"
  by (simp add: run_defs)

text \<open>
  Claim C4, amended. With the oracle configured, a transport error or timeout of the
  request, a status other than 200, a body that is not JSON, and an object whose
  \<open>isValid\<close> is absent or falsy in Python's sense each make
  \<^verbatim>\<open>_validate_with_oracle\<close> return \<^verbatim>\<open>False\<close>. And whenever the validation does not
  return \<^verbatim>\<open>True\<close> (it returns \<^verbatim>\<open>False\<close> or raises), processing the event
  initiates no destination action and leaves \<open>processed_txs\<close> as it was.
\<close>

theorem fail_closed_validation:
  "(oracle_api_url cfg = Some u \<and> u \<noteq> [] \<and>
      (reply = Raises ex \<or> (reply = Response status b \<and> status \<noteq> 200) \<or>
       reply = Response 200 Malformed \<or>
       (reply = Response 200 b \<and> response_json b = Inr j \<and> get_isValid j = Inr v \<and>
        \<not> truthy v))
     \<longrightarrow> fst (validate_with_oracle cfg ev reply s) = Inr False)
   \<and> (fst (validate_with_oracle cfg ev reply s) \<noteq> Inr True
     \<longrightarrow> mints (snd (process_event cfg ev reply s)) = mints s
       \<and> processed_txs (snd (process_event cfg ev reply s)) = processed_txs s)"
proof (intro conjI impI)
  assume a: "oracle_api_url cfg = Some u \<and> u \<noteq> [] \<and>
      (reply = Raises ex \<or> (reply = Response status b \<and> status \<noteq> 200) \<or>
       reply = Response 200 Malformed \<or>
       (reply = Response 200 b \<and> response_json b = Inr j \<and> get_isValid j = Inr v \<and>
        \<not> truthy v))"
  then have "fst (validate_with_oracle cfg ev reply s) = fst (post_to_oracle cfg u ev reply s)"
    by (simp add: validate_with_oracle_def)
  also have "\<dots> = Inr False"
    using a by (auto simp: post_to_oracle_verdict response_json_def)
  finally show "fst (validate_with_oracle cfg ev reply s) = Inr False" .
next
  assume "fst (validate_with_oracle cfg ev reply s) \<noteq> Inr True"
  then show "mints (snd (process_event cfg ev reply s)) = mints s"
    by (rule process_event_rejected)
next
  assume "fst (validate_with_oracle cfg ev reply s) \<noteq> Inr True"
  then show "processed_txs (snd (process_event cfg ev reply s)) = processed_txs s"
    by (rule process_event_rejected)
qed

theorem fail_closed_validation_witness:
  "fst (validate_with_oracle CONFIG lock_a (Response 503 Malformed) initial_listener) = Inr False
   \<and> mints (snd (process_event CONFIG lock_a (Response 503 Malformed) initial_listener)) = []
   \<and> processed_txs (snd (process_event CONFIG lock_a (Response 503 Malformed) initial_listener)) = {}"
proof -
  have u: "oracle_api_url CONFIG = Some ''https://api.mock-oracle.io/validate-tx''"
    by (simp add: oracle_api_url_def CONFIG_def)
  have m: "mints initial_listener = []" "processed_txs initial_listener = {}"
    by (simp_all add: initial_listener_def)
  from fail_closed_validation [of CONFIG "''https://api.mock-oracle.io/validate-tx''"
      "Response 503 Malformed" Timeout 503 Malformed JNull JNull lock_a initial_listener]
  show ?thesis using u m by simp
qed

section \<open>Processing the same transaction twice\<close>

text \<open>
  Claim C1, as the spec states it, at a concrete input: a log whose validation is refused
  with status 403 is processed twice, and no destination action is initiated at all
  (the spec says exactly one).
\<close>

theorem processing_twice_counterexample:
  "mints (snd (process_event CONFIG lock_a (Response 403 Malformed)
       (snd (process_event CONFIG lock_a (Response 403 Malformed) initial_listener)))) = []"
  by (simp add: run_defs)

text \<open>
  Claim C1, amended. Processing two logs of the same transaction hash one after the
  other initiates at most one destination action. When the hash is not yet in
  \<open>processed_txs\<close> and the validation of the first log returns \<^verbatim>\<open>True\<close>, exactly one
  action is initiated, for the first log; and after any further batch of logs, the
  second log is discarded: the only effect is the debug line, so the oracle is not
  called and nothing is initiated.
\<close>

theorem processing_twice:
  "transactionHash e2 = transactionHash e1 \<longrightarrow>
     length (mints (snd (process_event cfg e2 r2 (snd (process_event cfg e1 r1 s)))))
       \<le> length (mints s) + 1
   \<and> (hex (transactionHash e1) \<notin> processed_txs s
      \<and> fst (validate_with_oracle cfg e1 r1 s) = Inr True \<longrightarrow>
        mints (snd (process_event cfg e2 r2 (snd (process_event cfg e1 r1 s)))) = mints s @ [e1]
      \<and> process_event cfg e2 r2 (snd (process_events cfg batch (snd (process_event cfg e1 r1 s))))
        = (None, logging DEBUG (SkippingProcessed (hex (transactionHash e2)))
                   (snd (process_events cfg batch (snd (process_event cfg e1 r1 s))))))"
proof (intro impI conjI)
  assume same: "transactionHash e2 = transactionHash e1"
  let ?s1 = "snd (process_event cfg e1 r1 s)"
  let ?s2 = "snd (process_event cfg e2 r2 ?s1)"
  show "length (mints ?s2) \<le> length (mints s) + 1"
  proof -
    consider (none) "mints ?s1 = mints s"
      | (one) "mints ?s1 = mints s @ [e1]"
          "processed_txs ?s1 = insert (hex (transactionHash e1)) (processed_txs s)"
      using process_event_mints_cases [of cfg e1 r1 s] by blast
    then show ?thesis
    proof cases
      case none
      then show ?thesis
        using process_event_mints_cases [of cfg e2 r2 ?s1] by auto
    next
      case one
      then have "hex (transactionHash e2) \<in> processed_txs ?s1"
        using same by simp
      then have "mints ?s2 = mints ?s1"
        by (simp add: process_event_skip)
      then show ?thesis using one by simp
    qed
  qed
next
  assume same: "transactionHash e2 = transactionHash e1"
  assume acc: "hex (transactionHash e1) \<notin> processed_txs s
      \<and> fst (validate_with_oracle cfg e1 r1 s) = Inr True"
  let ?s1 = "snd (process_event cfg e1 r1 s)"
  have s1: "mints ?s1 = mints s @ [e1]" "hex (transactionHash e2) \<in> processed_txs ?s1"
    using acc same process_event_accepted [of e1 s cfg r1 s]
    by (simp_all add: initiate_fields validate_fields)
  then show "mints (snd (process_event cfg e2 r2 ?s1)) = mints s @ [e1]"
    by (simp add: process_event_skip)
  have "hex (transactionHash e2) \<in> processed_txs (snd (process_events cfg batch ?s1))"
    using s1(2) process_events_processed_mono [of ?s1 cfg batch] by blast
  then show "process_event cfg e2 r2 (snd (process_events cfg batch ?s1))
        = (None, logging DEBUG (SkippingProcessed (hex (transactionHash e2)))
                   (snd (process_events cfg batch ?s1)))"
    by (rule process_event_skip)
qed

theorem processing_twice_witness:
  "mints (snd (process_event CONFIG lock_a (Raises Timeout)
       (snd (process_event CONFIG lock_a (Response 200 (Parsed (JObj [(''isValid'', JBool True)])))
          initial_listener)))) = [lock_a]
   \<and> posts (snd (process_event CONFIG lock_a (Raises Timeout)
       (snd (process_events CONFIG [(lock_b, Response 404 Malformed)]
         (snd (process_event CONFIG lock_a (Response 200 (Parsed (JObj [(''isValid'', JBool True)])))
          initial_listener)))))) =
     posts (snd (process_events CONFIG [(lock_b, Response 404 Malformed)]
         (snd (process_event CONFIG lock_a (Response 200 (Parsed (JObj [(''isValid'', JBool True)])))
          initial_listener))))"
proof -
  have f: "hex (transactionHash lock_a) \<notin> processed_txs initial_listener"
    by (simp add: initial_listener_def)
  have a: "fst (validate_with_oracle CONFIG lock_a
      (Response 200 (Parsed (JObj [(''isValid'', JBool True)]))) initial_listener) = Inr True"
    by (simp add: validate_with_oracle_def post_to_oracle_verdict response_json_def
          oracle_api_url_def CONFIG_def)
  have m: "mints initial_listener = []"
    by (simp add: initial_listener_def)
  from processing_twice [of lock_a lock_a CONFIG "Raises Timeout"
      "Response 200 (Parsed (JObj [(''isValid'', JBool True)]))" initial_listener
      "[(lock_b, Response 404 Malformed)]"]
  show ?thesis using f a m by simp
qed

section \<open>The oracle call\<close>

text \<open>
  Claim C8, as the spec states it, at a concrete input: the oracle answers 200 with
  \<open>isValid\<close> set to the string \<^verbatim>\<open>"no"\<close>, which is not \<^verbatim>\<open>true\<close>, and the event is
  accepted; and the \<open>amount\<close> of the posted body is the JSON number, not a string.
\<close>

theorem oracle_call_shape_counterexample:
  "fst (validate_with_oracle CONFIG lock_a
       (Response 200 (Parsed (JObj [(''isValid'', JStr ''no'')]))) initial_listener) = Inr True
   \<and> map_of [(''isValid'', JStr ''no'')] ''isValid'' \<noteq> Some (JBool True)
   \<and> map_of (post_json (last (posts (snd (validate_with_oracle CONFIG lock_a
       (Response 200 (Parsed (JObj [(''isValid'', JStr ''no'')]))) initial_listener)))))
       ''amount'' = Some (JInt 1500000000000000000)"
  by (simp add: run_defs)

text \<open>
  Claim C8, amended. With the oracle URL configured, a validation posts one request to
  that URL, with timeout 10, the header \<^verbatim>\<open>x-api-key\<close> and a JSON body of three
  fields: \<open>transactionHash\<close>, the hash as a string, \<^verbatim>\<open>0x\<close> and hexadecimal digits;
  \<open>sourceChain\<close>, the name of the source chain; \<open>amount\<close>, the amount of the event as
  a JSON integer. The validation returns \<^verbatim>\<open>True\<close> exactly when the reply has status
  200, \<^verbatim>\<open>response.json()\<close> returns a value for its body (the body is a JSON document
  with no integer of more than 4300 digits, and the decoder raises nothing), that value
  is an object, and the \<open>isValid\<close> of the object is truthy in Python's sense (absent
  counts as \<^verbatim>\<open>False\<close>).
\<close>

theorem oracle_call_shape:
  "oracle_api_url cfg = Some u \<and> u \<noteq> [] \<longrightarrow>
     posts (snd (validate_with_oracle cfg ev reply s)) =
       posts s @
         [\<lparr>post_url = u,
           post_json = [(''transactionHash'', JStr (hex (transactionHash ev))),
                        (''sourceChain'', JStr (source_chain_name cfg)),
                        (''amount'', JInt (uint (amount ev)))],
           post_headers = [(''x-api-key'', oracle_api_key cfg)],
           post_timeout = 10\<rparr>]
   \<and> hex (transactionHash ev) = ''0x'' @ bytes_hex (transactionHash ev)
   \<and> set (bytes_hex (transactionHash ev)) \<subseteq> set ''0123456789abcdef''
   \<and> (fst (validate_with_oracle cfg ev reply s) = Inr True) =
       (\<exists>d. reply = Response 200 (Parsed (JObj d)) \<and> within_int_limit (JObj d) \<and>
            truthy (case map_of (rev d) ''isValid'' of None \<Rightarrow> JBool False | Some v \<Rightarrow> v))"
proof (intro impI conjI)
  assume c: "oracle_api_url cfg = Some u \<and> u \<noteq> []"
  then have v: "validate_with_oracle cfg ev reply s = post_to_oracle cfg u ev reply s"
    by (simp add: validate_with_oracle_def)
  show "posts (snd (validate_with_oracle cfg ev reply s)) =
       posts s @
         [\<lparr>post_url = u,
           post_json = [(''transactionHash'', JStr (hex (transactionHash ev))),
                        (''sourceChain'', JStr (source_chain_name cfg)),
                        (''amount'', JInt (uint (amount ev)))],
           post_headers = [(''x-api-key'', oracle_api_key cfg)],
           post_timeout = 10\<rparr>]"
    unfolding v by (rule post_to_oracle_posts)
  show "hex (transactionHash ev) = ''0x'' @ bytes_hex (transactionHash ev)"
    by (rule hex_def)
  show "set (bytes_hex (transactionHash ev)) \<subseteq> set ''0123456789abcdef''"
    by (rule bytes_hex_digits)
  show "(fst (validate_with_oracle cfg ev reply s) = Inr True) =
       (\<exists>d. reply = Response 200 (Parsed (JObj d)) \<and> within_int_limit (JObj d) \<and>
            truthy (case map_of (rev d) ''isValid'' of None \<Rightarrow> JBool False | Some v \<Rightarrow> v))"
    unfolding v by (rule accepted_iff)
qed

theorem oracle_call_shape_witness:
  "posts (snd (validate_with_oracle CONFIG lock_a
       (Response 200 (Parsed (JObj [(''isValid'', JBool True)]))) initial_listener)) =
     [\<lparr>post_url = ''https://api.mock-oracle.io/validate-tx'',
       post_json =
         [(''transactionHash'',
           JStr ''0xabcd01ff1032547698badcfe00112233445566778899aabbccddeef00f1e2d3c''),
          (''sourceChain'', JStr ''Ethereum''),
          (''amount'', JInt 1500000000000000000)],
       post_headers = [(''x-api-key'', ''your_default_api_key'')],
       post_timeout = 10\<rparr>]
   \<and> fst (validate_with_oracle CONFIG lock_a
       (Response 200 (Parsed (JObj [(''isValid'', JBool True)]))) initial_listener) = Inr True"
proof -
  have u: "oracle_api_url CONFIG = Some ''https://api.mock-oracle.io/validate-tx''"
    by (simp add: oracle_api_url_def CONFIG_def)
  have k: "oracle_api_key CONFIG = ''your_default_api_key''"
    "source_chain_name CONFIG = ''Ethereum''"
    by (simp_all add: oracle_api_key_def CONFIG_def)
  have h: "hex (transactionHash lock_a) =
      ''0xabcd01ff1032547698badcfe00112233445566778899aabbccddeef00f1e2d3c''"
    "uint (amount lock_a) = 1500000000000000000"
    by (simp_all add: lock_a_def hex_def hex_digit_def)
  have p: "posts initial_listener = []"
    by (simp add: initial_listener_def)
  from oracle_call_shape [of CONFIG "''https://api.mock-oracle.io/validate-tx''" lock_a
      "Response 200 (Parsed (JObj [(''isValid'', JBool True)]))" initial_listener]
  show ?thesis using u k h p by simp
qed

section \<open>No oracle configured\<close>

text \<open>
  Claim C9. When the configuration has no oracle URL (or an empty one),
  \<^verbatim>\<open>_validate_with_oracle\<close> returns \<^verbatim>\<open>True\<close> and only logs a warning: processing an
  event posts nothing, and every event whose hash is not yet in \<open>processed_txs\<close>
  goes on to the destination action and is marked processed.
\<close>

theorem oracle_not_configured_accepts:
  "oracle_api_url cfg = None \<or> oracle_api_url cfg = Some [] \<longrightarrow>
     validate_with_oracle cfg ev reply s = (Inr True, logging WARNING OracleUrlNotConfigured s)
   \<and> posts (snd (process_event cfg ev reply s)) = posts s
   \<and> (hex (transactionHash ev) \<notin> processed_txs s \<longrightarrow>
        fst (process_event cfg ev reply s) = None
      \<and> mints (snd (process_event cfg ev reply s)) = mints s @ [ev]
      \<and> hex (transactionHash ev) \<in> processed_txs (snd (process_event cfg ev reply s)))"
proof (intro impI conjI)
  assume nc: "oracle_api_url cfg = None \<or> oracle_api_url cfg = Some []"
  show v: "validate_with_oracle cfg ev reply s =
      (Inr True, logging WARNING OracleUrlNotConfigured s)"
    using nc by (rule validate_not_configured)
  show "posts (snd (process_event cfg ev reply s)) = posts s"
    using nc by (cases "hex (transactionHash ev) \<in> processed_txs s")
      (simp_all add: process_event_skip process_event_fresh validate_not_configured
         initiate_fields)
next
  assume nc: "oracle_api_url cfg = None \<or> oracle_api_url cfg = Some []"
  assume fresh: "hex (transactionHash ev) \<notin> processed_txs s"
  have pe: "process_event cfg ev reply s =
      (None, initiate_destination_chain_action cfg ev
         (logging WARNING OracleUrlNotConfigured
            (logging INFO (NewEventFound (event_name cfg) (hex (transactionHash ev))) s)))"
    using nc fresh by (simp add: process_event_fresh validate_not_configured)
  show "fst (process_event cfg ev reply s) = None"
    by (simp add: pe)
  show "mints (snd (process_event cfg ev reply s)) = mints s @ [ev]"
    by (simp add: pe initiate_fields)
  show "hex (transactionHash ev) \<in> processed_txs (snd (process_event cfg ev reply s))"
    by (simp add: pe initiate_fields)
qed

theorem oracle_not_configured_accepts_witness:
  "validate_with_oracle (CONFIG\<lparr>oracle_api := None\<rparr>) lock_a (Response 403 Malformed)
       initial_listener
     = (Inr True, logging WARNING OracleUrlNotConfigured initial_listener)
   \<and> posts (snd (process_event (CONFIG\<lparr>oracle_api := None\<rparr>) lock_a (Response 403 Malformed)
       initial_listener)) = []
   \<and> mints (snd (process_event (CONFIG\<lparr>oracle_api := None\<rparr>) lock_a (Response 403 Malformed)
       initial_listener)) = [lock_a]"
proof -
  have nc: "oracle_api_url (CONFIG\<lparr>oracle_api := None\<rparr>) = None"
    by (simp add: oracle_api_url_def)
  have i: "processed_txs initial_listener = {}" "posts initial_listener = []"
    "mints initial_listener = []"
    by (simp_all add: initial_listener_def)
  from oracle_not_configured_accepts [of "CONFIG\<lparr>oracle_api := None\<rparr>" lock_a
      "Response 403 Malformed" initial_listener]
  show ?thesis using nc i by simp
qed

section \<open>The checkpoint\<close>

text \<open>
  Claim C6, as the spec states it, at a concrete input: \<^verbatim>\<open>listen\<close> takes any integer
  as \<open>block_range\<close> and does not check it. With \<open>block_range\<close> at -5,
  \<open>last_scanned_block\<close> at 999 and the node at height 1000, the pass computes the
  range from 1000 to \<^verbatim>\<open>min(1000, 1000 - 5)\<close>, fetches it and sets
  \<open>last_scanned_block\<close> to 995: the checkpoint has decreased.
\<close>

theorem checkpoint_monotone_counterexample:
  "fst (listen_cycle CONFIG (- 5) \<lparr>latest = Some 1000, fetched = Inr []\<rparr>
          (999, initial_listener)) = 995"
  by (simp add: run_defs)

text \<open>
  Claim C6, amended. For a window \<open>block_range\<close> that is not negative, \<open>last_scanned_block\<close>
  never decreases, whatever the node, the oracle and the logs do, over any number of
  passes of the loop. And a pass that finds new blocks, fetches their logs and processes
  them without an exception leaving \<^verbatim>\<open>_process_event\<close> moves it forward, to the end
  of the scanned range, whatever the fetched logs are (none included).
\<close>

theorem checkpoint_monotone:
  "0 \<le> block_range \<longrightarrow>
     c \<le> fst (listen_cycles cfg block_range inps (c, s))
   \<and> (latest inp = Some h \<and> c < h \<and> fetched inp = Inr evs
      \<and> fst (process_events cfg evs s) = None \<longrightarrow>
        fst (listen_cycle cfg block_range inp (c, s)) = min h (c + 1 + block_range)
      \<and> c < fst (listen_cycle cfg block_range inp (c, s)))"
proof (intro impI conjI)
  assume "0 \<le> block_range"
  then show "c \<le> fst (listen_cycles cfg block_range inps (c, s))"
    by (rule listen_cycles_mono)
next
  assume br: "0 \<le> block_range"
  assume a: "latest inp = Some h \<and> c < h \<and> fetched inp = Inr evs
      \<and> fst (process_events cfg evs s) = None"
  let ?s2 = "(logging INFO (ScanningBlocks (c + 1) (min h (c + 1 + block_range))) s)
               \<lparr>fetches := fetches s @ [(c + 1, min h (c + 1 + block_range))]\<rparr>"
  have "processed_txs s = processed_txs ?s2" by simp
  then have "fst (process_events cfg evs ?s2) = fst (process_events cfg evs s)"
    by (rule process_events_outcome_state [symmetric])
  then have n: "fst (process_events cfg evs ?s2) = None"
    using a by simp
  show adv: "fst (listen_cycle cfg block_range inp (c, s)) = min h (c + 1 + block_range)"
    using a n by (cases "process_events cfg evs ?s2") (simp add: listen_cycle_scan)
  show "c < fst (listen_cycle cfg block_range inp (c, s))"
    unfolding adv using a br by simp
qed

theorem checkpoint_monotone_witness:
  "(999 :: int) \<le> fst (listen_cycles CONFIG 100
       [\<lparr>latest = Some 1050, fetched = Inl StaleBlockchain\<rparr>,
        \<lparr>latest = Some 990, fetched = Inr []\<rparr>] (999, initial_listener))
   \<and> fst (listen_cycle CONFIG 100 \<lparr>latest = Some 1050, fetched = Inr []\<rparr>
        (999, initial_listener)) = 1050"
proof -
  from checkpoint_monotone [of 100 999 CONFIG
      "[\<lparr>latest = Some 1050, fetched = Inl StaleBlockchain\<rparr>,
        \<lparr>latest = Some 990, fetched = Inr []\<rparr>]" initial_listener
      "\<lparr>latest = Some 1050, fetched = Inr []\<rparr>" 1050 "[]"]
  show ?thesis by simp
qed

section \<open>The scanned range\<close>

text \<open>
  Claim C2, on the code: the listener starts with the node at height 1000, so
  \<open>last_scanned_block\<close> is 999; in the first pass the node reports height 2000 and the
  window is 100. The pass scans from 1000 to 1100, that is
  \<^verbatim>\<open>min(latest_block, from_block + block_range)\<close>: 101 blocks, one more than the
  window, where the claim's \<^verbatim>\<open>from + maxRange - 1\<close> is 1099.
\<close>

theorem scan_window_evaluated:
  "listen CONFIG 100 True (Some 1000) [\<lparr>latest = Some 2000, fetched = Inr []\<rparr>]
     initial_listener =
     (Some 1100,
      \<lparr>processed_txs = {},
       logged = [(INFO, StartingListener ''TokensLocked''), (INFO, ScanningBlocks 1000 1100)],
       posts = [], mints = [], fetches = [(1000, 1100)]\<rparr>)"
  by (simp add: run_defs)

section \<open>A failed fetch\<close>




section \<open>Processed means initiated, once\<close>

text \<open>
  Claim C10. After any start of \<^verbatim>\<open>listen\<close> and any number of passes of its loop,
  from the listener as constructed, \<open>processed_txs\<close> is exactly the set of the hashes
  of the events for which the destination action was initiated, and no hash was
  initiated twice. The action has no failing path: it records the event and always ends
  by inserting the hash.
\<close>

theorem processed_iff_initiated_once:
  "processed_txs (snd (listen cfg block_range ready h0 inps initial_listener)) =
     set (map (\<lambda>e. hex (transactionHash e))
            (mints (snd (listen cfg block_range ready h0 inps initial_listener))))
   \<and> distinct (map (\<lambda>e. hex (transactionHash e))
       (mints (snd (listen cfg block_range ready h0 inps initial_listener))))
   \<and> mints (initiate_destination_chain_action cfg ev s) = mints s @ [ev]
   \<and> hex (transactionHash ev) \<in> processed_txs (initiate_destination_chain_action cfg ev s)"
proof -
  have "minted_once initial_listener"
    by (simp add: minted_once_def initial_listener_def)
  then have "minted_once (snd (listen cfg block_range ready h0 inps initial_listener))"
    by (rule minted_once_listen)
  then show ?thesis
    by (simp add: minted_once_def initiate_fields)
qed

section \<open>A height below the checkpoint\<close>

text \<open>
  Claim C7, as the spec states it, at a concrete input: \<open>last_scanned_block\<close> is 1000
  and the node reports height 990. The pass logs one line, at level \<^verbatim>\<open>INFO\<close>, the
  line of the case without new blocks; there is no warning.
\<close>

theorem lower_height_counterexample:
  "logged (snd (listen_cycle CONFIG 100 \<lparr>latest = Some 990, fetched = Inr []\<rparr>
      (1000, initial_listener))) = [(INFO, NoNewBlocks 990)]"
  by (simp add: run_defs)

text \<open>
  Claim C7, amended. Whenever the node reports a height that is not above
  \<open>last_scanned_block\<close>, lower or equal alike, the pass logs the \<^verbatim>\<open>INFO\<close> line
  \<^verbatim>\<open>No new blocks to scan\<close> with the reported height and changes nothing else:
  \<open>last_scanned_block\<close> keeps its value, nothing is fetched or processed.
\<close>

theorem lower_height_no_new_blocks:
  "latest inp = Some h \<and> h \<le> c \<longrightarrow>
     listen_cycle cfg block_range inp (c, s) = (c, logging INFO (NoNewBlocks h) s)"
  by (simp add: listen_cycle_no_new_blocks)

theorem lower_height_no_new_blocks_witness:
  "listen_cycle CONFIG 100 \<lparr>latest = Some 990, fetched = Inr []\<rparr> (1000, initial_listener)
     = (1000, logging INFO (NoNewBlocks 990) initial_listener)
   \<and> listen_cycle CONFIG 100 \<lparr>latest = Some 1000, fetched = Inr []\<rparr> (1000, initial_listener)
     = (1000, logging INFO (NoNewBlocks 1000) initial_listener)"
proof -
  from lower_height_no_new_blocks [of "\<lparr>latest = Some 990, fetched = Inr []\<rparr>" 990 1000
      CONFIG 100 initial_listener]
    lower_height_no_new_blocks [of "\<lparr>latest = Some 1000, fetched = Inr []\<rparr>" 1000 1000
      CONFIG 100 initial_listener]
  show ?thesis by simp
qed

section \<open>An exception while processing an event\<close>

text \<open>
  Claim C5, on the code: a pass fetches two logs; for the first the oracle answers 200
  with the JSON body \<^verbatim>\<open>[]\<close>, for the second it would answer that the event is valid.
  \<^verbatim>\<open>.get\<close> on the list raises \<^verbatim>\<open>AttributeError\<close>, which no handler in
  \<^verbatim>\<open>_validate_with_oracle\<close> or \<^verbatim>\<open>_process_event\<close> catches: the loop over the batch
  is left, the second log is never validated (one request was posted) nor acted upon,
  \<open>last_scanned_block\<close> stays at 999, and the pass ends in the handler for unexpected
  errors.
\<close>

theorem event_failure_aborts_cycle:
  "fst (listen_cycle CONFIG 100
      \<lparr>latest = Some 1000,
       fetched = Inr [(lock_a, Response 200 (Parsed (JList []))),
                      (lock_b, Response 200 (Parsed (JObj [(''isValid'', JBool True)])))]\<rparr>
      (999, initial_listener)) = 999
   \<and> mints (snd (listen_cycle CONFIG 100
      \<lparr>latest = Some 1000,
       fetched = Inr [(lock_a, Response 200 (Parsed (JList []))),
                      (lock_b, Response 200 (Parsed (JObj [(''isValid'', JBool True)])))]\<rparr>
      (999, initial_listener))) = []
   \<and> length (posts (snd (listen_cycle CONFIG 100
      \<lparr>latest = Some 1000,
       fetched = Inr [(lock_a, Response 200 (Parsed (JList []))),
                      (lock_b, Response 200 (Parsed (JObj [(''isValid'', JBool True)])))]\<rparr>
      (999, initial_listener)))) = 1
   \<and> last (logged (snd (listen_cycle CONFIG 100
      \<lparr>latest = Some 1000,
       fetched = Inr [(lock_a, Response 200 (Parsed (JList []))),
                      (lock_b, Response 200 (Parsed (JObj [(''isValid'', JBool True)])))]\<rparr>
      (999, initial_listener)))) = (ERROR, UnexpectedError AttributeError)"
  by (simp add: run_defs)

end
